theory Spec2Isabelle
  imports Main "HOL-Library.Sublist"
begin

section \<open>Completion source (\<open>find_completion\<close>, \<open>test\<close>)\<close>

text \<open>
  The global \<open>vector<string> commands\<close> of \<open>main.cpp\<close>, in its declaration order.
\<close>

definition commands :: "string list" where
  "commands = [''history'', ''cat'', ''ls'', ''echo'', ''type'', ''exit'', ''pwd'', ''cd'']"

text \<open>
  \<open>s.substr(0, n)\<close>: position 0 never exceeds the size, so the call never throws and
  yields the first \<open>min n (size s)\<close> characters.
\<close>

definition substr0 :: "string \<Rightarrow> nat \<Rightarrow> string" where
  "substr0 s n = take n s"

text \<open>
  The first loop of \<open>find_completion\<close>: every command whose leading
  \<open>partial.length()\<close> characters equal \<open>partial\<close> is pushed to the back of \<open>results\<close>.
\<close>

fun scan_commands :: "string \<Rightarrow> string list \<Rightarrow> string list \<Rightarrow> string list" where
  "scan_commands partial results [] = results"
| "scan_commands partial results (cmd # cmds) =
     scan_commands partial
       (if substr0 cmd (length partial) = partial then results @ [cmd] else results) cmds"

text \<open>
  \<open>entry->d_name[0] == '.'\<close> on a NUL-terminated name: an empty name has \<open>d_name[0] = 0\<close>.
\<close>

definition hidden :: "string \<Rightarrow> bool" where
  "hidden d_name = (case d_name of [] \<Rightarrow> False | c # _ \<Rightarrow> c = CHR ''.'')"

text \<open>
  The \<open>readdir\<close> loop: the entries arrive in the order the directory stream yields them;
  hidden ones are skipped (\<open>continue\<close>), the others are kept when \<open>partial\<close> is their prefix.
\<close>

fun scan_dir :: "string \<Rightarrow> string list \<Rightarrow> string list \<Rightarrow> string list" where
  "scan_dir partial contents [] = contents"
| "scan_dir partial contents (d_name # entries) =
     (if hidden d_name then scan_dir partial contents entries
      else scan_dir partial
             (if substr0 d_name (length partial) = partial then contents @ [d_name] else contents)
             entries)"

text \<open>
  \<open>find_completion\<close>. The current directory is the environment of the call: \<open>None\<close> when
  \<open>opendir\<close> returns \<open>nullptr\<close>, otherwise the names \<open>readdir\<close> yields, in order.
\<close>

definition find_completion :: "string list option \<Rightarrow> string \<Rightarrow> string list" where
  "find_completion cwd partial =
     (let results = scan_commands partial [] commands in
      if results \<noteq> [] then results
      else case cwd of
             None \<Rightarrow> []
           | Some entries \<Rightarrow>
               (let contents = scan_dir partial [] entries in
                if contents \<noteq> [] then contents else []))"

text \<open>\<open>test\<close>: the counting loop, with the counter \<open>cnt\<close> as accumulator.\<close>

fun test_loop :: "string \<Rightarrow> int \<Rightarrow> string list \<Rightarrow> int" where
  "test_loop word_to_complete cnt [] = cnt"
| "test_loop word_to_complete cnt (cmd # completion) =
     test_loop word_to_complete
       (if substr0 cmd (length word_to_complete) = word_to_complete then cnt + 1 else cnt)
       completion"

definition test :: "string list \<Rightarrow> string \<Rightarrow> int" where
  "test completion word_to_complete = test_loop word_to_complete 0 completion"

section \<open>Characters, strings and the terminal\<close>

text \<open>
  \<open>char ch = _getch()\<close>: the byte read from the console is stored in a plain \<open>char\<close>, which
  is a signed 8-bit integer for the compiler the file names (GCC/MinGW). Comparisons such
  as \<open>ch == 127\<close> or \<open>ch == -32\<close> promote it to \<open>int\<close>; \<open>schar\<close> is that promoted value.
\<close>

definition schar :: "char \<Rightarrow> int" where
  "schar c = (if (of_char c :: int) < 128 then of_char c else of_char c - 256)"

abbreviation BS :: char where "BS \<equiv> CHR 0x08"
abbreviation TAB :: char where "TAB \<equiv> CHR 0x09"
abbreviation NL :: char where "NL \<equiv> CHR 0x0A"
abbreviation CR :: char where "CR \<equiv> CHR 0x0D"
abbreviation SP :: char where "SP \<equiv> CHR '' ''"

text \<open>
  Two ways a handler can leave the language's defined behaviour: a \<open>std::string\<close> member
  called with a position beyond the size throws \<open>std::out_of_range\<close> (nothing in
  \<open>readline\<close> catches it), and an unchecked \<open>operator[]\<close> outside a container is undefined.
\<close>

datatype fault = OutOfRange | Undefined

text \<open>
  \<open>s.erase(pos, 1)\<close>, \<open>s.substr(pos)\<close> and \<open>s.insert(pos, 1, c)\<close> with an \<open>int\<close> argument:
  the position parameter is a \<open>size_t\<close>, so a negative \<open>int\<close> becomes a value above every
  size, and each member throws when \<open>pos > size()\<close>.
\<close>

definition str_erase1 :: "string \<Rightarrow> int \<Rightarrow> fault + string" where
  "str_erase1 s pos =
     (if pos < 0 \<or> int (length s) < pos then Inl OutOfRange
      else Inr (take (nat pos) s @ drop (nat pos + 1) s))"

definition str_substr :: "string \<Rightarrow> int \<Rightarrow> fault + string" where
  "str_substr s pos =
     (if pos < 0 \<or> int (length s) < pos then Inl OutOfRange
      else Inr (drop (nat pos) s))"

definition str_insert1 :: "string \<Rightarrow> int \<Rightarrow> char \<Rightarrow> fault + string" where
  "str_insert1 s pos c =
     (if pos < 0 \<or> int (length s) < pos then Inl OutOfRange
      else Inr (take (nat pos) s @ c # drop (nat pos) s))"

text \<open>
  \<open>s.rfind(c)\<close>: the highest index holding \<open>c\<close>, \<open>None\<close> for \<open>string::npos\<close>.
\<close>

fun rfind :: "string \<Rightarrow> char \<Rightarrow> nat option" where
  "rfind [] c = None"
| "rfind (x # xs) c =
     (case rfind xs c of
        Some i \<Rightarrow> Some (Suc i)
      | None \<Rightarrow> if x = c then Some 0 else None)"

section \<open>The line editor (\<open>readline\<close>)\<close>

text \<open>
  The local variables of \<open>readline\<close>, and what it has sent to the terminal: \<open>cout\<close> is the
  text written to the output stream so far, \<open>beeps\<close> counts the calls of \<open>MessageBeep\<close>.
  The \<open>int\<close> variables are modelled as unbounded integers: the lines are keyboard input
  and history records, far below the \<open>2^31\<close> characters at which a cast of
  \<open>line.length()\<close> or an increment could leave the range of \<open>int\<close>.
\<close>

record editor =
  line :: string
  lst :: char
  history_index :: int
  current_line_backup :: string
  cursor_pos :: int
  cout :: string
  beeps :: nat

text \<open>Backspace (\<open>ch == '\b' || ch == 127\<close>).\<close>

definition backspace :: "editor \<Rightarrow> fault + editor" where
  "backspace s =
     (if line s \<noteq> [] \<and> cursor_pos s > 0 then
        (case str_erase1 (line s) (cursor_pos s - 1) of
           Inl e \<Rightarrow> Inl e
         | Inr line1 \<Rightarrow>
             (let cursor1 = cursor_pos s - 1 in
              case str_substr line1 cursor1 of
                Inl e \<Rightarrow> Inl e
              | Inr remaining \<Rightarrow>
                  Inr (s\<lparr>line := line1, cursor_pos := cursor1,
                         cout := cout s @ [BS] @ remaining @ [SP]
                                   @ replicate (length remaining + 1) BS\<rparr>)))
      else Inr s)"

text \<open>
  Tab: the word to complete is cut at the last space of the whole line
  (\<open>line.rfind(' ')\<close>); \<open>space_pos + 1\<close> never exceeds the size, so \<open>substr\<close> cannot throw.
\<close>

definition word_to_complete :: "string \<Rightarrow> string" where
  "word_to_complete l =
     (case rfind l SP of
        None \<Rightarrow> l
      | Some space_pos \<Rightarrow> drop (space_pos + 1) l)"

text \<open>
  The \<open>if\<close>/\<open>else if\<close>/\<open>else\<close> chain of the Tab handler decides among four courses:
  after a Tab (\<open>lst == '\t'\<close>) the candidates are listed when there are several and
  nothing at all happens otherwise; after any other key a unique match is completed and
  everything else reaches the final \<open>else\<close> with \<open>MessageBeep\<close>.
\<close>

datatype tab_branch = ListCandidates | Nothing | Complete | Bell

definition tab_case :: "string list option \<Rightarrow> editor \<Rightarrow> tab_branch" where
  "tab_case cwd s =
     (let word = word_to_complete (line s);
          completion = find_completion cwd word
      in
      if lst s = TAB then
        (if length completion > 1 then ListCandidates else Nothing)
      else if completion \<noteq> [] \<and> test completion word = 1 then Complete
      else Bell)"

definition tab :: "string list option \<Rightarrow> editor \<Rightarrow> editor" where
  "tab cwd s =
     (let space_pos = rfind (line s) SP;
          completion = find_completion cwd (word_to_complete (line s))
      in
      case tab_case cwd s of
        ListCandidates \<Rightarrow>
          s\<lparr>cout := cout s @ [NL] @ concat (map (\<lambda>cmd. cmd @ ''    '') completion)
                      @ [NL] @ ''$ '' @ line s
                      @ replicate (nat (int (length (line s)) - cursor_pos s)) BS\<rparr>
      | Nothing \<Rightarrow> s
      | Complete \<Rightarrow>
          (let line1 = (case space_pos of
                          None \<Rightarrow> hd completion
                        | Some p \<Rightarrow> take (p + 1) (line s) @ hd completion)
           in s\<lparr>line := line1, cursor_pos := int (length line1),
                 cout := cout s @ concat (replicate (length (line s)) [BS, SP, BS]) @ line1\<rparr>)
      | Bell \<Rightarrow> s\<lparr>beeps := beeps s + 1\<rparr>)"

text \<open>
  Up arrow (second byte 72). \<open>history[history_index]\<close> is an unchecked vector access.
\<close>

definition up :: "string list \<Rightarrow> editor \<Rightarrow> fault + editor" where
  "up history s =
     (if history \<noteq> [] then
        (let s1 = (if history_index s = - 1
                   then s\<lparr>current_line_backup := line s,
                          history_index := int (length history) - 1\<rparr>
                   else if history_index s > 0
                   then s\<lparr>history_index := history_index s - 1\<rparr>
                   else s)
         in
         if history_index s1 < 0 \<or> int (length history) \<le> history_index s1 then Inl Undefined
         else
           (let line1 = history ! nat (history_index s1) in
            Inr (s1\<lparr>line := line1, cursor_pos := int (length line1),
                    cout := cout s @ replicate (nat (cursor_pos s)) BS
                              @ replicate (length (line s)) SP
                              @ replicate (length (line s)) BS @ line1\<rparr>)))
      else Inr s)"

text \<open>Down arrow (second byte 80).\<close>

definition down :: "string list \<Rightarrow> editor \<Rightarrow> fault + editor" where
  "down history s =
     (if history_index s \<noteq> - 1 then
        (let old_line_length = length (line s) in
         if history_index s < int (length history) - 1 then
           (let hi = history_index s + 1 in
            if hi < 0 \<or> int (length history) \<le> hi then Inl Undefined
            else
              (let line1 = history ! nat hi in
               Inr (s\<lparr>history_index := hi, line := line1, cursor_pos := int (length line1),
                      cout := cout s @ replicate (nat (cursor_pos s)) BS
                                @ replicate old_line_length SP
                                @ replicate old_line_length BS @ line1\<rparr>)))
         else
           (let line1 = current_line_backup s in
            Inr (s\<lparr>history_index := - 1, line := line1, cursor_pos := int (length line1),
                   cout := cout s @ replicate (nat (cursor_pos s)) BS
                             @ replicate old_line_length SP
                             @ replicate old_line_length BS @ line1\<rparr>)))
      else Inr s)"

text \<open>Left arrow (75) and right arrow (77); \<open>line[cursor_pos - 1]\<close> is unchecked.\<close>

definition left :: "editor \<Rightarrow> editor" where
  "left s =
     (if cursor_pos s > 0 then s\<lparr>cursor_pos := cursor_pos s - 1, cout := cout s @ [BS]\<rparr>
      else s)"

definition right :: "editor \<Rightarrow> fault + editor" where
  "right s =
     (if cursor_pos s < int (length (line s)) then
        (if cursor_pos s < 0 then Inl Undefined
         else Inr (s\<lparr>cursor_pos := cursor_pos s + 1,
                     cout := cout s @ [line s ! nat (cursor_pos s)]\<rparr>))
      else Inr s)"

text \<open>Delete key (83).\<close>

definition delete_key :: "editor \<Rightarrow> fault + editor" where
  "delete_key s =
     (if line s \<noteq> [] \<and> cursor_pos s < int (length (line s)) then
        (case str_erase1 (line s) (cursor_pos s) of
           Inl e \<Rightarrow> Inl e
         | Inr line1 \<Rightarrow>
             (case str_substr line1 (cursor_pos s) of
                Inl e \<Rightarrow> Inl e
              | Inr remaining \<Rightarrow>
                  Inr (s\<lparr>line := line1,
                         cout := cout s @ remaining @ [SP]
                                   @ replicate (length remaining + 1) BS\<rparr>)))
      else Inr s)"

text \<open>The keys that arrive as two bytes: the dispatch on the second byte.\<close>

definition extended :: "string list \<Rightarrow> editor \<Rightarrow> char \<Rightarrow> fault + editor" where
  "extended history s ch =
     (if schar ch = 72 then up history s
      else if schar ch = 80 then down history s
      else if schar ch = 75 then Inr (left s)
      else if schar ch = 77 then right s
      else if schar ch = 83 then delete_key s
      else Inr s)"

text \<open>Printable characters (\<open>ch >= 32 && ch <= 126\<close>).\<close>

definition insert_char :: "editor \<Rightarrow> char \<Rightarrow> fault + editor" where
  "insert_char s ch =
     (case str_insert1 (line s) (cursor_pos s) ch of
        Inl e \<Rightarrow> Inl e
      | Inr line1 \<Rightarrow>
          (let cursor1 = cursor_pos s + 1 in
           case str_substr line1 (cursor1 - 1) of
             Inl e \<Rightarrow> Inl e
           | Inr remaining \<Rightarrow>
               Inr (s\<lparr>line := line1, cursor_pos := cursor1,
                      cout := cout s @ remaining
                                @ replicate (length remaining - 1) BS\<rparr>)))"

text \<open>
  One pass through the body of \<open>while (true)\<close>, on the bytes \<open>_getch\<close> will deliver.
  \<open>Next\<close>: the body reached \<open>lst = ch\<close> and the loop goes on with the remaining bytes;
  \<open>Break\<close>: Enter; \<open>Exit\<close>: \<open>exit(1)\<close> on Ctrl+D; \<open>Blocked\<close>: \<open>_getch\<close> waits for a byte
  that the input does not hold.
\<close>

datatype step =
    Next editor "char list"
  | Break editor
  | Exit int
  | Fault fault
  | Blocked editor

definition iteration :: "string list \<Rightarrow> string list option \<Rightarrow> editor \<Rightarrow> char list \<Rightarrow> step" where
  "iteration history cwd s input =
     (case input of
        [] \<Rightarrow> Blocked s
      | ch # rest \<Rightarrow>
          if schar ch = 13 then Break (s\<lparr>cout := cout s @ [NL]\<rparr>)
          else if schar ch = 8 \<or> schar ch = 127 then
            (case backspace s of
               Inl e \<Rightarrow> Fault e
             | Inr s1 \<Rightarrow> Next (s1\<lparr>lst := ch\<rparr>) rest)
          else if schar ch = 9 then Next ((tab cwd s)\<lparr>lst := ch\<rparr>) rest
          else if schar ch = - 32 \<or> schar ch = 224 then
            (case rest of
               [] \<Rightarrow> Blocked s
             | ch2 # rest2 \<Rightarrow>
                 (case extended history s ch2 of
                    Inl e \<Rightarrow> Fault e
                  | Inr s1 \<Rightarrow> Next (s1\<lparr>lst := ch2\<rparr>) rest2))
          else if 32 \<le> schar ch \<and> schar ch \<le> 126 then
            (case insert_char s ch of
               Inl e \<Rightarrow> Fault e
             | Inr s1 \<Rightarrow> Next (s1\<lparr>lst := ch\<rparr>) rest)
          else if schar ch = 4 then Exit 1
          else Next (s\<lparr>lst := ch\<rparr>) rest)"

lemma iteration_consumes:
  "iteration history cwd s input = Next s1 rest \<Longrightarrow> length rest < length input"
  by (auto simp: iteration_def split: list.splits if_splits sum.splits)

text \<open>The loop itself: it runs until a pass does not end in \<open>lst = ch\<close>.\<close>

function readline_loop ::
  "string list \<Rightarrow> string list option \<Rightarrow> editor \<Rightarrow> char list \<Rightarrow> step" where
  "readline_loop history cwd s input =
     (case iteration history cwd s input of
        Next s1 rest \<Rightarrow> readline_loop history cwd s1 rest
      | r \<Rightarrow> r)"
  by pat_completeness auto
termination
  by (relation "measure (\<lambda>(history, cwd, s, input). length input)")
     (auto dest: iteration_consumes)

text \<open>
  The state at the start of a call. \<open>lst\<close> is declared without an initialiser, so its
  first value is whatever the stack holds: a parameter here.
\<close>

definition initial :: "char \<Rightarrow> editor" where
  "initial lst0 =
     \<lparr>line = [], lst = lst0, history_index = - 1, current_line_backup = [],
      cursor_pos = 0, cout = [], beeps = 0\<rparr>"

definition readline :: "string list \<Rightarrow> string list option \<Rightarrow> char \<Rightarrow> char list \<Rightarrow> step" where
  "readline history cwd lst0 input = readline_loop history cwd (initial lst0) input"

text \<open>What a run of the loop leaves behind when it stops to wait for the next key.\<close>

definition pending :: "step \<Rightarrow> editor option" where
  "pending r = (case r of Blocked s \<Rightarrow> Some s | _ \<Rightarrow> None)"

definition pending_line :: "step \<Rightarrow> string option" where
  "pending_line r = map_option line (pending r)"

definition pending_cursor :: "step \<Rightarrow> int option" where
  "pending_cursor r = map_option cursor_pos (pending r)"

definition pending_index :: "step \<Rightarrow> int option" where
  "pending_index r = map_option history_index (pending r)"

text \<open>The state invariants of the editor.\<close>

definition cursor_ok :: "editor \<Rightarrow> bool" where
  "cursor_ok s = (0 \<le> cursor_pos s \<and> cursor_pos s \<le> int (length (line s)))"

definition index_ok :: "string list \<Rightarrow> editor \<Rightarrow> bool" where
  "index_ok history s = (- 1 \<le> history_index s \<and> history_index s < int (length history))"

text \<open>The byte sequences of the keys, as the handlers' comments name them.\<close>

definition key_up :: "char list" where "key_up = [CHR 0xE0, CHR 0x48]"
definition key_down :: "char list" where "key_down = [CHR 0xE0, CHR 0x50]"
definition key_left :: "char list" where "key_left = [CHR 0xE0, CHR 0x4B]"
definition key_right :: "char list" where "key_right = [CHR 0xE0, CHR 0x4D]"
definition key_delete :: "char list" where "key_delete = [CHR 0xE0, CHR 0x53]"
definition key_tab :: "char list" where "key_tab = [TAB]"

section \<open>The history store (\<open>get_history\<close>, \<open>main\<close>)\<close>

text \<open>
  \<open>get_history\<close>: \<open>None\<close> when \<open>history.txt\<close> cannot be opened, otherwise the lines
  \<open>getline\<close> yields; the vector is cleared first and receives the non-empty lines.
\<close>

fun load_lines :: "string list \<Rightarrow> string list \<Rightarrow> string list" where
  "load_lines history [] = history"
| "load_lines history (l # ls) =
     load_lines (if l \<noteq> [] then history @ [l] else history) ls"

definition get_history :: "string list option \<Rightarrow> string list" where
  "get_history file = (case file of None \<Rightarrow> [] | Some ls \<Rightarrow> load_lines [] ls)"

text \<open>
  \<open>find_first_not_of(" \t")\<close>, \<open>find_last_not_of(" \t")\<close> and \<open>find(" ")\<close>, with \<open>None\<close> for
  \<open>string::npos\<close>.
\<close>

definition blank :: "char \<Rightarrow> bool" where
  "blank c = (c = SP \<or> c = TAB)"

fun find_first_not_of :: "string \<Rightarrow> nat option" where
  "find_first_not_of [] = None"
| "find_first_not_of (c # cs) =
     (if blank c then map_option Suc (find_first_not_of cs) else Some 0)"

fun find_last_not_of :: "string \<Rightarrow> nat option" where
  "find_last_not_of [] = None"
| "find_last_not_of (c # cs) =
     (case find_last_not_of cs of
        Some i \<Rightarrow> Some (Suc i)
      | None \<Rightarrow> if blank c then None else Some 0)"

fun find_char :: "string \<Rightarrow> char \<Rightarrow> nat option" where
  "find_char [] c = None"
| "find_char (x # xs) c = (if x = c then Some 0 else map_option Suc (find_char xs c))"

text \<open>
  The two \<open>erase\<close> calls of \<open>main\<close>: \<open>erase(0, npos)\<close> empties the string, and
  \<open>npos + 1\<close> wraps to \<open>0\<close>, so \<open>erase(0)\<close> empties it as well.
\<close>

definition trim :: "string \<Rightarrow> string" where
  "trim input =
     (let input1 = (case find_first_not_of input of None \<Rightarrow> [] | Some n \<Rightarrow> drop n input)
      in case find_last_not_of input1 of
           None \<Rightarrow> take 0 input1
         | Some i \<Rightarrow> take (i + 1) input1)"

text \<open>
  The loop of \<open>main\<close>, reduced to what it does to the vector \<open>history\<close>. Its input is the
  sequence of lines that the calls of \<open>readline\<close> return. The command bodies never write
  the vector; \<open>returns\<close> says whether the body run for a line comes back to the loop (it
  does not when the body ends the process), and \<open>exit 0\<close> leaves right after the append.
\<close>

fun main_loop :: "(string \<Rightarrow> bool) \<Rightarrow> string list \<Rightarrow> string list \<Rightarrow> string list" where
  "main_loop returns history [] = history"
| "main_loop returns history (raw # raws) =
     (let input = trim raw in
      if input = [] then main_loop returns history raws
      else
        (let command = (case find_char input SP of None \<Rightarrow> input | Some n \<Rightarrow> substr0 input n) in
         if command = [] then main_loop returns history raws
         else
           (let history1 = history @ [input] in
            if input = ''exit 0'' then history1
            else if returns input then main_loop returns history1 raws
            else history1)))"

definition main :: "(string \<Rightarrow> bool) \<Rightarrow> string list option \<Rightarrow> string list \<Rightarrow> string list" where
  "main returns file raws = main_loop returns (get_history file) raws"

text \<open>A session in which every command body comes back to the loop.\<close>

definition always_returns :: "string \<Rightarrow> bool" where
  "always_returns input = True"

text \<open>A session in which only the body run for \<open>ls -a\<close> comes back to the loop.\<close>

definition returns_ls_only :: "string \<Rightarrow> bool" where
  "returns_ls_only input = (input = ''ls -a'')"

section \<open>The wording of the specification, for comparison\<close>

text \<open>
  The current word as the specification describes it: the substring of the buffer after
  the last space before the cursor, or the whole buffer if no space exists before it.
\<close>

definition spec_current_word :: "string \<Rightarrow> nat \<Rightarrow> string" where
  "spec_current_word buffer cursor =
     (case rfind (take cursor buffer) SP of
        None \<Rightarrow> buffer
      | Some p \<Rightarrow> drop (p + 1) buffer)"

text \<open>
  The history store as the specification describes it: the loaded sequence followed by
  the submitted non-empty lines.
\<close>

definition spec_history_store :: "string list \<Rightarrow> string list \<Rightarrow> string list" where
  "spec_history_store loaded submitted = loaded @ filter (\<lambda>l. l \<noteq> []) submitted"

text \<open>
  A line without its leading and trailing spaces and tabs, written with the list
  functions of the library only.
\<close>

abbreviation stripped :: "string \<Rightarrow> string" where
  "stripped raw \<equiv>
     rev (dropWhile (\<lambda>c. c = SP \<or> c = TAB) (rev (dropWhile (\<lambda>c. c = SP \<or> c = TAB) raw)))"

section \<open>Properties of the completion source\<close>

lemma substr0_prefix: "substr0 s (length p) = p \<longleftrightarrow> prefix p s"
  unfolding substr0_def
  by (metis append_eq_conv_conj prefix_def)

lemma scan_commands_filter:
  "scan_commands p acc cs = acc @ filter (prefix p) cs"
  by (induction cs arbitrary: acc) (simp_all add: substr0_prefix)

lemma scan_dir_filter:
  "scan_dir p acc es = acc @ filter (\<lambda>n. \<not> hidden n \<and> prefix p n) es"
  by (induction es arbitrary: acc) (simp_all add: substr0_prefix)

lemma test_loop_count:
  "test_loop p cnt cs = cnt + int (length (filter (prefix p) cs))"
  by (induction cs arbitrary: cnt) (simp_all add: substr0_prefix)

lemma find_completion_filter:
  "find_completion cwd p =
     (if filter (prefix p) commands \<noteq> [] then filter (prefix p) commands
      else filter (\<lambda>n. \<not> hidden n \<and> prefix p n) (case cwd of None \<Rightarrow> [] | Some es \<Rightarrow> es))"
  by (simp add: find_completion_def scan_commands_filter scan_dir_filter Let_def
           split: option.split)

lemma find_completion_all_prefixed:
  "filter (prefix p) (find_completion cwd p) = find_completion cwd p"
  by (simp add: find_completion_filter)

lemma test_find_completion:
  "test (find_completion cwd p) p = int (length (find_completion cwd p))"
  by (simp add: test_def test_loop_count find_completion_all_prefixed)

lemma hidden_prefix: "hidden n \<longleftrightarrow> prefix ''.'' n"
  by (cases n) (auto simp: hidden_def)

text \<open>
  Claim C5. For every partial string: when at least one built-in command has the partial
  as a prefix, \<open>find_completion\<close> returns exactly the matching built-ins, in the order of
  the command list, and the result does not depend on the current directory; otherwise
  it returns the entries of the current directory that have the partial as a prefix and
  do not begin with a dot, in directory order (none when the directory cannot be
  opened); and when neither tier matches, the result is empty.
\<close>

theorem find_completion_two_tiers:
  "(filter (prefix p) commands \<noteq> [] \<longrightarrow>
      find_completion cwd p = filter (prefix p) commands
      \<and> find_completion cwd' p = find_completion cwd p)
   \<and> (filter (prefix p) commands = [] \<longrightarrow>
      find_completion (Some entries) p
        = filter (\<lambda>n. prefix p n \<and> \<not> prefix ''.'' n) entries
      \<and> find_completion None p = [])
   \<and> (filter (prefix p) commands = []
        \<and> filter (\<lambda>n. prefix p n \<and> \<not> prefix ''.'' n) entries = [] \<longrightarrow>
      find_completion (Some entries) p = [])"
  by (auto simp: find_completion_filter hidden_prefix conj_commute)

theorem find_completion_two_tiers_witness:
  "filter (prefix ''e'') commands = [''echo'', ''exit'']
   \<and> find_completion (Some [''e.txt'']) ''e'' = [''echo'', ''exit'']
   \<and> find_completion None ''e'' = find_completion (Some [''e.txt'']) ''e''
   \<and> filter (prefix ''z'') commands = []
   \<and> find_completion (Some [''.zshrc'', ''zoo'', ''a'', ''zebra'']) ''z'' = [''zoo'', ''zebra'']
   \<and> find_completion None ''z'' = []
   \<and> filter (prefix ''.z'') commands = []
   \<and> find_completion (Some [''.zshrc'', ''zoo'', ''.zlogin'']) ''.z'' = []"
  using find_completion_two_tiers [of "''e''" "Some [''e.txt'']" None "[]"]
        find_completion_two_tiers [of "''z''" None None "[''.zshrc'', ''zoo'', ''a'', ''zebra'']"]
        find_completion_two_tiers [of "''.z''" None None "[''.zshrc'', ''zoo'', ''.zlogin'']"]
  by (simp add: commands_def)

section \<open>Running the loop\<close>

declare readline_loop.simps [simp del]

lemma schar_codes [simp]:
  "schar BS = 8" "schar TAB = 9" "schar CR = 13" "schar (CHR 0xE0) = - 32"
  "schar (CHR 0x48) = 72" "schar (CHR 0x50) = 80" "schar (CHR 0x4B) = 75"
  "schar (CHR 0x4D) = 77" "schar (CHR 0x53) = 83"
  by (simp_all add: schar_def)

lemma iteration_extended:
  "iteration history cwd s (CHR 0xE0 # ch2 # rest) =
     (case extended history s ch2 of Inl e \<Rightarrow> Fault e | Inr s1 \<Rightarrow> Next (s1\<lparr>lst := ch2\<rparr>) rest)"
  by (simp add: iteration_def)

lemma iteration_tab:
  "iteration history cwd s (TAB # rest) = Next ((tab cwd s)\<lparr>lst := TAB\<rparr>) rest"
  by (simp add: iteration_def)

lemma iteration_backspace:
  "iteration history cwd s (BS # rest) =
     (case backspace s of Inl e \<Rightarrow> Fault e | Inr s1 \<Rightarrow> Next (s1\<lparr>lst := BS\<rparr>) rest)"
  by (simp add: iteration_def)

lemma iteration_left:
  "iteration history cwd s (key_left @ rest) = Next ((left s)\<lparr>lst := CHR 0x4B\<rparr>) rest"
  by (simp add: key_left_def iteration_extended extended_def)

lemma iteration_right:
  "iteration history cwd s (key_right @ rest) =
     (case right s of Inl e \<Rightarrow> Fault e | Inr s1 \<Rightarrow> Next (s1\<lparr>lst := CHR 0x4D\<rparr>) rest)"
  by (simp add: key_right_def iteration_extended extended_def)

lemma iteration_delete:
  "iteration history cwd s (key_delete @ rest) =
     (case delete_key s of Inl e \<Rightarrow> Fault e | Inr s1 \<Rightarrow> Next (s1\<lparr>lst := CHR 0x53\<rparr>) rest)"
  by (simp add: key_delete_def iteration_extended extended_def)

lemma iteration_printable:
  "32 \<le> schar ch \<Longrightarrow> schar ch \<le> 126 \<Longrightarrow>
   iteration history cwd s (ch # rest) =
     (case insert_char s ch of Inl e \<Rightarrow> Fault e | Inr s1 \<Rightarrow> Next (s1\<lparr>lst := ch\<rparr>) rest)"
  by (simp add: iteration_def)

lemma readline_loop_Nil: "readline_loop history cwd s [] = Blocked s"
  by (simp add: readline_loop.simps iteration_def)

lemma readline_loop_Next:
  "iteration history cwd s input = Next s1 rest \<Longrightarrow>
   readline_loop history cwd s input = readline_loop history cwd s1 rest"
  by (simp add: readline_loop.simps)

lemma readline_loop_Break:
  "iteration history cwd s input = Break s1 \<Longrightarrow>
   readline_loop history cwd s input = Break s1"
  by (simp add: readline_loop.simps)

section \<open>Printable characters\<close>

lemma insert_char_at_end:
  "cursor_pos s = int (length (line s)) \<Longrightarrow>
   insert_char s ch = Inr (s\<lparr>line := line s @ [ch], cursor_pos := int (length (line s)) + 1,
                              cout := cout s @ [ch]\<rparr>)"
  by (simp add: insert_char_def str_insert1_def str_substr_def)

lemma printable_run:
  "\<forall>c\<in>set cs. 32 \<le> schar c \<and> schar c \<le> 126 \<Longrightarrow> cursor_pos s = int (length (line s)) \<Longrightarrow>
   \<exists>s1. readline_loop history cwd s cs = Blocked s1 \<and> line s1 = line s @ cs
        \<and> cursor_pos s1 = int (length (line s @ cs)) \<and> cout s1 = cout s @ cs
        \<and> readline_loop history cwd s (cs @ [CR]) = Break (s1\<lparr>cout := cout s1 @ [NL]\<rparr>)"
proof (induction cs arbitrary: s)
  case Nil
  then show ?case
    by (simp add: readline_loop_Nil readline_loop_Break iteration_def)
next
  case (Cons c cs)
  let ?s1 = "s\<lparr>line := line s @ [c], cursor_pos := int (length (line s)) + 1,
                cout := cout s @ [c], lst := c\<rparr>"
  have step: "\<And>rest. iteration history cwd s (c # rest) = Next ?s1 rest"
    using Cons.prems by (simp add: iteration_printable insert_char_at_end)
  have "cursor_pos ?s1 = int (length (line ?s1))" by simp
  with Cons.IH [of ?s1] Cons.prems
  obtain s2 where "readline_loop history cwd ?s1 cs = Blocked s2"
    "line s2 = line ?s1 @ cs" "cursor_pos s2 = int (length (line ?s1 @ cs))"
    "cout s2 = cout ?s1 @ cs"
    "readline_loop history cwd ?s1 (cs @ [CR]) = Break (s2\<lparr>cout := cout s2 @ [NL]\<rparr>)"
    by auto
  then show ?case
    using readline_loop_Next [OF step [of cs]] readline_loop_Next [OF step [of "cs @ [CR]"]]
    by simp
qed

text \<open>
  Claim C8. For every finite sequence of printable bytes (32..126) typed into a fresh
  call of \<open>readline\<close>, with no other key: when the loop waits for the next key the buffer
  is the sequence typed, in arrival order, and the cursor equals its length; Enter then
  returns that buffer.
\<close>

theorem printable_insertions:
  assumes "\<forall>c\<in>set cs. 32 \<le> schar c \<and> schar c \<le> 126"
  shows "pending_line (readline history cwd lst0 cs) = Some cs
       \<and> pending_cursor (readline history cwd lst0 cs) = Some (int (length cs))
       \<and> (\<exists>s1. readline history cwd lst0 (cs @ [CR]) = Break s1 \<and> line s1 = cs
                \<and> cursor_pos s1 = int (length cs))"
proof -
  have "cursor_pos (initial lst0) = int (length (line (initial lst0)))"
    by (simp add: initial_def)
  from printable_run [OF assms this, of history cwd]
  obtain s1 where "readline_loop history cwd (initial lst0) cs = Blocked s1"
    "line s1 = line (initial lst0) @ cs" "cursor_pos s1 = int (length (line (initial lst0) @ cs))"
    "readline_loop history cwd (initial lst0) (cs @ [CR]) = Break (s1\<lparr>cout := cout s1 @ [NL]\<rparr>)"
    by auto
  then show ?thesis
    by (simp add: readline_def pending_line_def pending_cursor_def pending_def initial_def)
qed

theorem printable_insertions_witness:
  "32 \<le> schar CHR ''l'' \<and> schar CHR ''l'' \<le> 126 \<and> 32 \<le> schar CHR ''s'' \<and> schar CHR ''s'' \<le> 126
   \<and> pending_line (readline [] None CR ''ls'') = Some ''ls''
   \<and> pending_cursor (readline [] None CR ''ls'') = Some 2"
  using printable_insertions [of "''ls''" "[]" None CR]
  by (simp add: schar_def)

section \<open>The Tab handler\<close>

lemma tab_case_simplified:
  "tab_case cwd s =
     (let completion = find_completion cwd (word_to_complete (line s)) in
      if lst s = TAB then (if length completion > 1 then ListCandidates else Nothing)
      else if length completion = 1 then Complete
      else Bell)"
  by (auto simp: tab_case_def Let_def test_find_completion)

text \<open>
  Claim C10, as amended. For every partial string \<open>p\<close>, \<open>test\<close> applied to the candidates
  that \<open>find_completion\<close> returns for \<open>p\<close> equals their number, since every candidate
  returned has \<open>p\<close> as a prefix. Consequently, when the preceding key was not Tab, the
  handler takes the unique-completion course exactly when \<open>find_completion\<close> returns a
  single candidate.
\<close>

theorem test_counts_every_candidate:
  "test (find_completion cwd p) p = int (length (find_completion cwd p))
   \<and> (lst s \<noteq> TAB \<longrightarrow>
        (tab_case cwd s = Complete
           \<longleftrightarrow> length (find_completion cwd (word_to_complete (line s))) = 1))"
  by (simp add: test_find_completion tab_case_simplified Let_def)

theorem test_counts_every_candidate_witness:
  "lst (initial CR\<lparr>line := ''ec''\<rparr>) \<noteq> TAB
   \<and> test (find_completion None ''ec'') ''ec'' = 1
   \<and> tab_case None (initial CR\<lparr>line := ''ec''\<rparr>) = Complete
   \<and> length (find_completion None (word_to_complete (line (initial CR\<lparr>line := ''ec''\<rparr>)))) = 1"
  using test_counts_every_candidate [of None "''ec''" "initial CR\<lparr>line := ''ec''\<rparr>"]
  by (simp add: initial_def word_to_complete_def find_completion_def commands_def substr0_def)

text \<open>
  Claim C10 as stated fails after a Tab. Typing \<open>ec\<close> and Tab completes the line to
  \<open>echo\<close>; at the next Tab \<open>find_completion\<close> returns the single candidate \<open>echo\<close>, and
  the handler does not take the unique-completion course.
\<close>

theorem unique_branch_skipped_after_tab:
  "pending (readline [] None CR (''ec'' @ key_tab)) =
     Some \<lparr>line = ''echo'', lst = TAB, history_index = - 1, current_line_backup = [],
           cursor_pos = 4,
           cout = [CHR ''e'', CHR ''c'', BS, SP, BS, BS, SP, BS,
                   CHR ''e'', CHR ''c'', CHR ''h'', CHR ''o''],
           beeps = 0\<rparr>
   \<and> length (find_completion None (word_to_complete ''echo'')) = 1
   \<and> tab_case None
        \<lparr>line = ''echo'', lst = TAB, history_index = - 1, current_line_backup = [],
         cursor_pos = 4,
         cout = [CHR ''e'', CHR ''c'', BS, SP, BS, BS, SP, BS,
                 CHR ''e'', CHR ''c'', CHR ''h'', CHR ''o''],
         beeps = 0\<rparr> \<noteq> Complete"
  by code_simp

section \<open>The scenarios of the specification, run on the model\<close>

lemma scenario_history_recall:
  "pending_line (readline [''cd /tmp'', ''ls -a''] None CR key_up) = Some ''ls -a''
   \<and> pending_cursor (readline [''cd /tmp'', ''ls -a''] None CR key_up) = Some 5
   \<and> pending_line (readline [''cd /tmp'', ''ls -a''] None CR (key_up @ key_up)) = Some ''cd /tmp''
   \<and> pending_cursor (readline [''cd /tmp'', ''ls -a''] None CR (key_up @ key_up)) = Some 7
   \<and> pending_line (readline [''cd /tmp'', ''ls -a''] None CR (key_up @ key_up @ key_down))
       = Some ''ls -a''
   \<and> pending_line (readline [''cd /tmp'', ''ls -a''] None CR
         (key_up @ key_up @ key_down @ key_down)) = Some []
   \<and> pending_index (readline [''cd /tmp'', ''ls -a''] None CR
         (key_up @ key_up @ key_down @ key_down)) = Some (- 1)"
  by code_simp

lemma scenario_unique_completion:
  "pending_line (readline [] None CR (''ec'' @ key_tab)) = Some ''echo''
   \<and> pending_cursor (readline [] None CR (''ec'' @ key_tab)) = Some 4"
  by code_simp

section \<open>The cursor stays inside the buffer\<close>

lemma backspace_cursor_ok:
  "cursor_ok s \<Longrightarrow> \<exists>s1. backspace s = Inr s1 \<and> cursor_ok s1
      \<and> history_index s1 = history_index s"
  by (auto simp: backspace_def cursor_ok_def str_erase1_def str_substr_def Let_def min_def
           split: if_splits)

lemma delete_key_cursor_ok:
  "cursor_ok s \<Longrightarrow> \<exists>s1. delete_key s = Inr s1 \<and> cursor_ok s1
      \<and> history_index s1 = history_index s"
  by (auto simp: delete_key_def cursor_ok_def str_erase1_def str_substr_def Let_def min_def
           split: if_splits)

lemma insert_char_cursor_ok:
  "cursor_ok s \<Longrightarrow> \<exists>s1. insert_char s ch = Inr s1 \<and> cursor_ok s1
      \<and> history_index s1 = history_index s"
  by (auto simp: insert_char_def cursor_ok_def str_insert1_def str_substr_def Let_def)

lemma left_cursor_ok:
  "cursor_ok s \<Longrightarrow> cursor_ok (left s) \<and> history_index (left s) = history_index s"
  by (auto simp: left_def cursor_ok_def)

lemma right_cursor_ok:
  "cursor_ok s \<Longrightarrow> \<exists>s1. right s = Inr s1 \<and> cursor_ok s1
      \<and> history_index s1 = history_index s"
  by (auto simp: right_def cursor_ok_def)

lemma tab_cursor_ok:
  "cursor_ok s \<Longrightarrow> cursor_ok (tab cwd s) \<and> history_index (tab cwd s) = history_index s"
  by (auto simp: tab_def cursor_ok_def Let_def split: tab_branch.splits option.splits)

lemma up_cursor_ok:
  "up history s = Inr s1 \<Longrightarrow> cursor_ok s \<Longrightarrow> cursor_ok s1"
  by (auto simp: up_def cursor_ok_def Let_def split: if_splits)

lemma down_cursor_ok:
  "down history s = Inr s1 \<Longrightarrow> cursor_ok s \<Longrightarrow> cursor_ok s1"
  by (auto simp: down_def cursor_ok_def Let_def split: if_splits)

lemma up_index_ok:
  "index_ok history s \<Longrightarrow> \<exists>s1. up history s = Inr s1 \<and> index_ok history s1"
  by (auto simp: up_def index_ok_def Let_def)

lemma down_index_ok:
  "index_ok history s \<Longrightarrow> \<exists>s1. down history s = Inr s1 \<and> index_ok history s1"
  by (auto simp: down_def index_ok_def Let_def)

lemma extended_cursor_ok:
  "extended history s ch = Inr s1 \<Longrightarrow> cursor_ok s \<Longrightarrow> cursor_ok s1"
  using left_cursor_ok [of s] right_cursor_ok [of s] delete_key_cursor_ok [of s]
  by (auto simp: extended_def split: if_splits dest: up_cursor_ok down_cursor_ok)

lemma extended_index_ok:
  "cursor_ok s \<Longrightarrow> index_ok history s \<Longrightarrow>
   \<exists>s1. extended history s ch = Inr s1 \<and> index_ok history s1"
  using left_cursor_ok [of s] right_cursor_ok [of s] delete_key_cursor_ok [of s]
        up_index_ok [of history s] down_index_ok [of history s]
  by (auto simp: extended_def index_ok_def)

lemma index_ok_lst [simp]: "index_ok history (s\<lparr>lst := c\<rparr>) = index_ok history s"
  by (simp add: index_ok_def)

lemma cursor_ok_lst [simp]: "cursor_ok (s\<lparr>lst := c\<rparr>) = cursor_ok s"
  by (simp add: cursor_ok_def)

lemma iteration_cursor_ok:
  assumes "cursor_ok s" and "iteration history cwd s input = Next s1 rest"
  shows "cursor_ok s1"
proof (cases input)
  case Nil
  with assms show ?thesis by (simp add: iteration_def)
next
  case (Cons ch inp)
  show ?thesis
    using assms backspace_cursor_ok [of s] insert_char_cursor_ok [of s ch] tab_cursor_ok [of s cwd]
    unfolding Cons iteration_def
    by (auto split: if_splits sum.splits list.splits dest: extended_cursor_ok)
qed

lemma iteration_index_ok:
  assumes "cursor_ok s" and "index_ok history s"
  shows "iteration history cwd s input \<noteq> Fault e"
    and "iteration history cwd s input = Next s1 rest \<Longrightarrow> index_ok history s1"
proof -
  show "iteration history cwd s input \<noteq> Fault e"
  proof (cases input)
    case Nil
    then show ?thesis by (simp add: iteration_def)
  next
    case (Cons ch inp)
    show ?thesis
    proof (cases inp)
      case Nil
      then show ?thesis
        using assms backspace_cursor_ok [of s] insert_char_cursor_ok [of s ch]
        unfolding Cons iteration_def by (auto split: if_splits sum.splits)
    next
      case (Cons ch2 inp2)
      then show ?thesis
        using assms backspace_cursor_ok [of s] insert_char_cursor_ok [of s ch]
          extended_index_ok [of s history ch2]
        unfolding \<open>input = ch # inp\<close> iteration_def by (auto split: if_splits sum.splits)
    qed
  qed
  show "index_ok history s1" if "iteration history cwd s input = Next s1 rest"
  proof (cases input)
    case Nil
    with that show ?thesis by (simp add: iteration_def)
  next
    case (Cons ch inp)
    show ?thesis
    proof (cases inp)
      case Nil
      then show ?thesis
        using that assms backspace_cursor_ok [of s] insert_char_cursor_ok [of s ch]
          tab_cursor_ok [of s cwd]
        unfolding Cons iteration_def by (auto simp: index_ok_def split: if_splits sum.splits)
    next
      case (Cons ch2 inp2)
      then show ?thesis
        using that assms backspace_cursor_ok [of s] insert_char_cursor_ok [of s ch]
          extended_index_ok [of s history ch2] tab_cursor_ok [of s cwd]
        unfolding \<open>input = ch # inp\<close> iteration_def
        by (auto simp: index_ok_def split: if_splits sum.splits)
    qed
  qed
qed

text \<open>
  Claim C1. Whatever bytes the loop reads in one pass (a printable character, Backspace,
  Delete, the arrows, Tab or anything else): if \<open>0 \<le> cursor_pos \<le> length line\<close> holds
  before the pass and the pass reaches the next read, it holds again there. When the
  history index is in range as well (\<open>-1\<close> or an index of the history), which holds from
  the start of \<open>readline\<close> on, no pass throws or reads outside a container, and the index
  stays in range.
\<close>

theorem cursor_within_buffer_after_every_key:
  assumes "cursor_ok s"
  shows "(iteration history cwd s input = Next s1 rest \<longrightarrow> cursor_ok s1)
       \<and> (index_ok history s \<longrightarrow>
            iteration history cwd s input \<noteq> Fault e
            \<and> (iteration history cwd s input = Next s1 rest \<longrightarrow> index_ok history s1))"
  using assms iteration_cursor_ok [of s history cwd input s1 rest]
    iteration_index_ok [of s history cwd input]
  by blast

lemma iteration_Blocked: "iteration history cwd s input = Blocked s1 \<Longrightarrow> s1 = s"
  by (auto simp: iteration_def split: list.splits if_splits sum.splits)

lemma iteration_Break:
  "iteration history cwd s input = Break s1 \<Longrightarrow> s1 = s\<lparr>cout := cout s @ [NL]\<rparr>"
  by (auto simp: iteration_def split: list.splits if_splits sum.splits)

lemma readline_loop_invariant:
  "cursor_ok s \<Longrightarrow> index_ok history s \<Longrightarrow>
   readline_loop history cwd s input \<noteq> Fault e
   \<and> (readline_loop history cwd s input = Blocked s1 \<or> readline_loop history cwd s input = Break s1
        \<longrightarrow> cursor_ok s1 \<and> index_ok history s1)"
proof (induction history cwd s input rule: readline_loop.induct)
  case (1 history cwd s input)
  show ?case
  proof (cases "iteration history cwd s input")
    case (Next s2 rest)
    have "cursor_ok s2" "index_ok history s2"
      using iteration_cursor_ok [OF "1.prems"(1) Next]
        iteration_index_ok(2) [OF "1.prems" Next] by simp_all
    from "1.IH" [OF Next this] show ?thesis
      by (simp add: readline_loop_Next [OF Next])
  next
    case (Break s2)
    with iteration_Break [OF Break] "1.prems" show ?thesis
      by (auto simp: readline_loop.simps cursor_ok_def index_ok_def)
  next
    case (Exit n)
    then show ?thesis by (simp add: readline_loop.simps)
  next
    case (Fault e2)
    with iteration_index_ok(1) [OF "1.prems"] show ?thesis by blast
  next
    case (Blocked s2)
    with iteration_Blocked [OF Blocked] "1.prems" show ?thesis
      by (auto simp: readline_loop.simps)
  qed
qed

lemma initial_ok: "cursor_ok (initial lst0)" "index_ok history (initial lst0)"
  by (simp_all add: initial_def cursor_ok_def index_ok_def)

lemma readline_invariant:
  "readline history cwd lst0 input \<noteq> Fault e
   \<and> (readline history cwd lst0 input = Blocked s1 \<or> readline history cwd lst0 input = Break s1
        \<longrightarrow> cursor_ok s1 \<and> index_ok history s1)"
  unfolding readline_def by (rule readline_loop_invariant [OF initial_ok])

theorem cursor_within_buffer_after_every_key_witness:
  "cursor_ok (initial CR)
   \<and> index_ok [''ls''] (initial CR)
   \<and> iteration [''ls''] None (initial CR) key_up =
       Next \<lparr>line = ''ls'', lst = CHR 0x48, history_index = 0, current_line_backup = [],
             cursor_pos = 2, cout = ''ls'', beeps = 0\<rparr> []
   \<and> cursor_ok \<lparr>line = ''ls'', lst = CHR 0x48, history_index = 0, current_line_backup = [],
                cursor_pos = 2, cout = ''ls'', beeps = 0\<rparr>
   \<and> index_ok [''ls''] \<lparr>line = ''ls'', lst = CHR 0x48, history_index = 0,
                          current_line_backup = [], cursor_pos = 2, cout = ''ls'', beeps = 0\<rparr>
   \<and> iteration [''ls''] None (initial CR) key_up \<noteq> Fault Undefined"
  using cursor_within_buffer_after_every_key [of "initial CR" "[''ls'']" None key_up
      "\<lparr>line = ''ls'', lst = CHR 0x48, history_index = 0, current_line_backup = [],
        cursor_pos = 2, cout = ''ls'', beeps = 0\<rparr>" "[]" Undefined]
  by (simp add: initial_def cursor_ok_def index_ok_def key_up_def iteration_def extended_def
        up_def Let_def)

section \<open>History recall\<close>

lemma iteration_up:
  "iteration history cwd s (key_up @ rest) =
     (case up history s of Inl e \<Rightarrow> Fault e | Inr s1 \<Rightarrow> Next (s1\<lparr>lst := CHR 0x48\<rparr>) rest)"
  by (simp add: key_up_def iteration_extended extended_def)

lemma iteration_down:
  "iteration history cwd s (key_down @ rest) =
     (case down history s of Inl e \<Rightarrow> Fault e | Inr s1 \<Rightarrow> Next (s1\<lparr>lst := CHR 0x50\<rparr>) rest)"
  by (simp add: key_down_def iteration_extended extended_def)

lemma up_entering:
  "history \<noteq> [] \<Longrightarrow> history_index s = - 1 \<Longrightarrow>
   \<exists>s1. up history s = Inr s1 \<and> history_index s1 = int (length history) - 1
       \<and> current_line_backup s1 = line s \<and> line s1 = last history
       \<and> cursor_pos s1 = int (length (last history))"
  by (auto simp: up_def Let_def last_conv_nth nat_diff_distrib')

lemma down_past_newest:
  "history_index s = int (length history) - 1 \<Longrightarrow> history \<noteq> [] \<Longrightarrow>
   \<exists>s1. down history s = Inr s1 \<and> history_index s1 = - 1
       \<and> line s1 = current_line_backup s
       \<and> cursor_pos s1 = int (length (current_line_backup s))"
  by (auto simp: down_def Let_def)

text \<open>
  Claim C2, as amended. For every buffer \<open>B\<close>, every cursor position and every non-empty
  history: pressing Up once while not navigating and then Down once restores the buffer
  to exactly \<open>B\<close>, leaves navigation, and puts the cursor at the end of \<open>B\<close> (its value
  before the Up press only if the cursor was at the end).
\<close>

theorem up_then_down_restores_buffer:
  assumes "history \<noteq> []" and "history_index s = - 1"
  shows "pending_line (readline_loop history cwd s (key_up @ key_down)) = Some (line s)
       \<and> pending_cursor (readline_loop history cwd s (key_up @ key_down))
           = Some (int (length (line s)))
       \<and> pending_index (readline_loop history cwd s (key_up @ key_down)) = Some (- 1)"
proof -
  from up_entering [OF assms] obtain s1 where
    s1: "up history s = Inr s1" "history_index s1 = int (length history) - 1"
      "current_line_backup s1 = line s"
    by blast
  let ?s1 = "s1\<lparr>lst := CHR 0x48\<rparr>"
  have step1: "iteration history cwd s (key_up @ key_down) = Next ?s1 key_down"
    by (simp add: iteration_up s1)
  from down_past_newest [of ?s1 history] s1 assms obtain s2 where
    s2: "down history ?s1 = Inr s2" "history_index s2 = - 1" "line s2 = line s"
      "cursor_pos s2 = int (length (line s))"
    by auto
  let ?s2 = "s2\<lparr>lst := CHR 0x50\<rparr>"
  have step2: "iteration history cwd ?s1 (key_down @ []) = Next ?s2 []"
    by (simp only: iteration_down s2 sum.case)
  have "readline_loop history cwd s (key_up @ key_down) = Blocked ?s2"
    using readline_loop_Next [OF step1] readline_loop_Next [OF step2]
    by (simp add: readline_loop_Nil)
  then show ?thesis
    by (simp add: pending_line_def pending_cursor_def pending_index_def pending_def s2)
qed

theorem up_then_down_restores_buffer_witness:
  "[''cd /tmp'', ''ls -a''] \<noteq> []
   \<and> history_index (initial CR\<lparr>line := ''ab'', cursor_pos := 2\<rparr>) = - 1
   \<and> pending_line (readline_loop [''cd /tmp'', ''ls -a''] None
        (initial CR\<lparr>line := ''ab'', cursor_pos := 2\<rparr>) (key_up @ key_down)) = Some ''ab''
   \<and> pending_cursor (readline_loop [''cd /tmp'', ''ls -a''] None
        (initial CR\<lparr>line := ''ab'', cursor_pos := 2\<rparr>) (key_up @ key_down)) = Some 2"
  using up_then_down_restores_buffer [of "[''cd /tmp'', ''ls -a'']"
      "initial CR\<lparr>line := ''ab'', cursor_pos := 2\<rparr>" None]
  by (simp add: initial_def)

text \<open>
  Claim C2 as stated fails for a cursor inside the buffer: with the history \<open>ls\<close>, typing
  \<open>ab\<close> and moving left twice leaves the cursor at 0; Up and Down then restore \<open>ab\<close> with
  the cursor at 2.
\<close>

theorem up_then_down_moves_cursor_to_end:
  "pending_line (readline [''ls''] None CR (''ab'' @ key_left @ key_left)) = Some ''ab''
   \<and> pending_cursor (readline [''ls''] None CR (''ab'' @ key_left @ key_left)) = Some 0
   \<and> pending_index (readline [''ls''] None CR (''ab'' @ key_left @ key_left)) = Some (- 1)
   \<and> pending_line (readline [''ls''] None CR (''ab'' @ key_left @ key_left @ key_up @ key_down))
       = Some ''ab''
   \<and> pending_cursor (readline [''ls''] None CR (''ab'' @ key_left @ key_left @ key_up @ key_down))
       = Some 2"
  by code_simp

section \<open>Tab after another key, and Tab after Tab\<close>





lemma tab_no_candidates:
  "find_completion cwd (word_to_complete (line s)) = [] \<Longrightarrow>
   tab cwd s = (if lst s = TAB then s else s\<lparr>beeps := beeps s + 1\<rparr>)"
  by (simp add: tab_def tab_case_simplified Let_def)

text \<open>
  Claim C6, as amended. For every buffer state, if a Tab press finds no completion
  candidate, the buffer and the cursor are unchanged and nothing is printed; exactly one
  alert is emitted when the preceding key was not Tab, and none when it was.
\<close>

theorem tab_without_candidates:
  assumes "find_completion cwd (word_to_complete (line s)) = []"
  shows "iteration history cwd s (key_tab @ rest) =
           Next (s\<lparr>beeps := (if lst s = TAB then beeps s else beeps s + 1), lst := TAB\<rparr>) rest"
  by (simp add: key_tab_def iteration_tab tab_no_candidates [OF assms])

theorem tab_without_candidates_witness:
  "find_completion (Some [''a.txt''])
     (word_to_complete (line (initial CR\<lparr>line := ''zz'', cursor_pos := 2\<rparr>))) = []
   \<and> iteration [] (Some [''a.txt'']) (initial CR\<lparr>line := ''zz'', cursor_pos := 2\<rparr>) key_tab =
       Next \<lparr>line = ''zz'', lst = TAB, history_index = - 1, current_line_backup = [],
             cursor_pos = 2, cout = [], beeps = 1\<rparr> []"
  using tab_without_candidates [of "Some [''a.txt'']"
      "initial CR\<lparr>line := ''zz'', cursor_pos := 2\<rparr>" "[]" "[]"]
  by (simp add: initial_def word_to_complete_def find_completion_def commands_def substr0_def
        hidden_def)

text \<open>
  Claim C6 as stated fails when the preceding key was Tab: with no visible entry of the
  current directory and no command beginning with \<open>zz\<close>, the first Tab after \<open>zz\<close> rings once and
  the second Tab emits nothing.
\<close>

theorem second_tab_without_candidates_is_silent:
  "find_completion (Some [''.'', ''..'', ''notes.txt'']) (word_to_complete ''zz'') = []
   \<and> pending (readline [] (Some [''.'', ''..'', ''notes.txt'']) CR ''zz'') =
       Some \<lparr>line = ''zz'', lst = CHR ''z'', history_index = - 1, current_line_backup = [],
             cursor_pos = 2, cout = ''zz'', beeps = 0\<rparr>
   \<and> pending (readline [] (Some [''.'', ''..'', ''notes.txt'']) CR (''zz'' @ key_tab)) =
       Some \<lparr>line = ''zz'', lst = TAB, history_index = - 1, current_line_backup = [],
             cursor_pos = 2, cout = ''zz'', beeps = 1\<rparr>
   \<and> pending (readline [] (Some [''.'', ''..'', ''notes.txt'']) CR (''zz'' @ key_tab @ key_tab)) =
       Some \<lparr>line = ''zz'', lst = TAB, history_index = - 1, current_line_backup = [],
             cursor_pos = 2, cout = ''zz'', beeps = 1\<rparr>"
  by code_simp

section \<open>The word handed to the completion source\<close>

lemma rfind_None: "rfind l c = None \<longleftrightarrow> c \<notin> set l"
  by (induction l) (auto split: option.splits)

lemma rfind_Some:
  "rfind l c = Some i \<Longrightarrow> l = take i l @ c # drop (Suc i) l \<and> c \<notin> set (drop (Suc i) l)"
proof (induction l arbitrary: i)
  case Nil
  then show ?case by simp
next
  case (Cons x xs)
  show ?case
  proof (cases "rfind xs c")
    case None
    with Cons.prems have "x = c" "i = 0" by (auto split: if_splits)
    with None show ?thesis by (simp add: rfind_None)
  next
    case (Some j)
    with Cons.prems have "i = Suc j" by simp
    with Cons.IH [OF Some] show ?thesis by simp
  qed
qed

text \<open>
  Claim C4, as amended. On every Tab press the word handed to the completion source is
  the part of the buffer after the last space of the whole buffer, or the whole buffer
  when it holds no space, whatever the cursor position; with the cursor at the end of
  the buffer this is the word after the last space before the cursor.
\<close>

theorem word_is_cut_at_last_space_of_line:
  "(SP \<notin> set l \<longrightarrow> word_to_complete l = l)
   \<and> (SP \<in> set l \<longrightarrow> (\<exists>before. l = before @ SP # word_to_complete l)
                       \<and> SP \<notin> set (word_to_complete l))
   \<and> word_to_complete l = spec_current_word l (length l)
   \<and> tab_case cwd (s\<lparr>cursor_pos := c\<rparr>) = tab_case cwd s"
proof -
  have "word_to_complete l = l" if "SP \<notin> set l"
    using that rfind_None [of l SP] by (simp add: word_to_complete_def)
  moreover have "(\<exists>before. l = before @ SP # word_to_complete l) \<and> SP \<notin> set (word_to_complete l)"
    if "SP \<in> set l"
  proof -
    from that obtain i where i: "rfind l SP = Some i"
      using rfind_None [of l SP] by (cases "rfind l SP") auto
    from rfind_Some [OF i] show ?thesis
      by (auto simp: word_to_complete_def i)
  qed
  moreover have "word_to_complete l = spec_current_word l (length l)"
    by (simp add: word_to_complete_def spec_current_word_def)
  moreover have "tab_case cwd (s\<lparr>cursor_pos := c\<rparr>) = tab_case cwd s"
    by (simp add: tab_case_def)
  ultimately show ?thesis by blast
qed

theorem word_is_cut_at_last_space_of_line_witness:
  "SP \<in> set ''a ec'' \<and> ''a ec'' = ''a'' @ SP # word_to_complete ''a ec''
   \<and> SP \<notin> set (word_to_complete ''a ec'')
   \<and> SP \<notin> set ''ec'' \<and> word_to_complete ''ec'' = ''ec''
   \<and> word_to_complete ''a ec'' = spec_current_word ''a ec'' (length ''a ec'')"
  using word_is_cut_at_last_space_of_line [where l = "''a ec''" and cwd = None and s = "initial CR" and c = 0]
    word_is_cut_at_last_space_of_line [where l = "''ec''" and cwd = None and s = "initial CR" and c = 0]
  by (simp add: word_to_complete_def)

text \<open>
  Claim C4 as stated fails for a cursor inside the buffer: in \<open>a ec\<close> with the cursor at
  1 no space precedes the cursor, so the claim's word is the whole buffer, while the
  handler queries \<open>ec\<close> and completes the line to \<open>a echo\<close>.
\<close>

theorem word_ignores_cursor:
  "pending_line (readline [] None CR (''a ec'' @ key_left @ key_left @ key_left)) = Some ''a ec''
   \<and> pending_cursor (readline [] None CR (''a ec'' @ key_left @ key_left @ key_left)) = Some 1
   \<and> word_to_complete ''a ec'' = ''ec''
   \<and> spec_current_word ''a ec'' 1 = ''a ec''
   \<and> pending_line (readline [] None CR (''a ec'' @ key_left @ key_left @ key_left @ key_tab))
       = Some ''a echo''"
  by code_simp

section \<open>The ends of the history\<close>

lemma up_at_oldest:
  "history \<noteq> [] \<Longrightarrow> history_index s = 0 \<Longrightarrow>
   up history s =
     Inr (s\<lparr>line := history ! 0, cursor_pos := int (length (history ! 0)),
            cout := cout s @ replicate (nat (cursor_pos s)) BS
                      @ replicate (length (line s)) SP
                      @ replicate (length (line s)) BS @ history ! 0\<rparr>)"
  by (simp add: up_def Let_def)

lemma down_idle: "history_index s = - 1 \<Longrightarrow> down history s = Inr s"
  by (simp add: down_def)

lemma readline_loop_down_idle:
  "history_index s = - 1 \<Longrightarrow>
   readline_loop history cwd s (key_down @ rest)
     = readline_loop history cwd (s\<lparr>lst := CHR 0x50\<rparr>) rest"
  by (rule readline_loop_Next) (simp add: iteration_down down_idle)

lemma repeated_down_idle:
  "history_index s = - 1 \<Longrightarrow>
   readline_loop history cwd s (concat (replicate (Suc n) key_down))
     = Blocked (s\<lparr>lst := CHR 0x50\<rparr>)"
proof (induction n arbitrary: s)
  case 0
  then show ?case
    using readline_loop_down_idle [of s history cwd "[]"] by (simp add: readline_loop_Nil)
next
  case (Suc n)
  have "readline_loop history cwd s (concat (replicate (Suc (Suc n)) key_down))
          = readline_loop history cwd (s\<lparr>lst := CHR 0x50\<rparr>) (concat (replicate (Suc n) key_down))"
    using readline_loop_down_idle [OF Suc.prems, of history cwd "concat (replicate (Suc n) key_down)"]
    by simp
  also have "\<dots> = Blocked (s\<lparr>lst := CHR 0x50\<rparr>)"
    using Suc.IH [of "s\<lparr>lst := CHR 0x50\<rparr>"] Suc.prems by simp
  finally show ?case .
qed

text \<open>
  Claim C7, as amended. While navigating at history index 0, a further Up press leaves
  the index at 0 and sets the buffer to history entry 0 and the cursor to its length (so
  both are unchanged when nothing was edited or moved since that entry was recalled);
  and while not navigating, any number of Down presses leave the editor as it is, apart
  from the last-key memory, and do not enter navigation.
\<close>

theorem up_clamps_at_oldest_and_down_stays_idle:
  "(history \<noteq> [] \<and> history_index s = 0 \<longrightarrow>
      pending_index (readline_loop history cwd s key_up) = Some 0
      \<and> pending_line (readline_loop history cwd s key_up) = Some (history ! 0)
      \<and> pending_cursor (readline_loop history cwd s key_up) = Some (int (length (history ! 0))))
   \<and> (history_index s = - 1 \<longrightarrow>
      pending (readline_loop history cwd s (concat (replicate (Suc n) key_down)))
        = Some (s\<lparr>lst := CHR 0x50\<rparr>))"
proof -
  have "pending_index (readline_loop history cwd s key_up) = Some 0
      \<and> pending_line (readline_loop history cwd s key_up) = Some (history ! 0)
      \<and> pending_cursor (readline_loop history cwd s key_up) = Some (int (length (history ! 0)))"
    if "history \<noteq> []" "history_index s = 0"
  proof -
    let ?s1 = "s\<lparr>line := history ! 0, cursor_pos := int (length (history ! 0)),
            cout := cout s @ replicate (nat (cursor_pos s)) BS
                      @ replicate (length (line s)) SP
                      @ replicate (length (line s)) BS @ history ! 0, lst := CHR 0x48\<rparr>"
    have "iteration history cwd s (key_up @ []) = Next ?s1 []"
      by (simp only: iteration_up up_at_oldest [OF that] sum.case)
    then have "readline_loop history cwd s key_up = Blocked ?s1"
      using readline_loop_Next [of history cwd s key_up ?s1 "[]"] by (simp add: readline_loop_Nil)
    with that show ?thesis
      by (simp add: pending_index_def pending_line_def pending_cursor_def pending_def)
  qed
  moreover have "pending (readline_loop history cwd s (concat (replicate (Suc n) key_down)))
        = Some (s\<lparr>lst := CHR 0x50\<rparr>)" if "history_index s = - 1"
    by (simp only: repeated_down_idle [OF that] pending_def step.case)
  ultimately show ?thesis by blast
qed

theorem up_clamps_at_oldest_and_down_stays_idle_witness:
  "[''cd /tmp'', ''ls -a''] \<noteq> []
   \<and> history_index (initial CR\<lparr>history_index := 0, line := ''cd /tmp'', cursor_pos := 7\<rparr>) = 0
   \<and> pending_index (readline_loop [''cd /tmp'', ''ls -a''] None
        (initial CR\<lparr>history_index := 0, line := ''cd /tmp'', cursor_pos := 7\<rparr>) key_up) = Some 0
   \<and> pending_line (readline_loop [''cd /tmp'', ''ls -a''] None
        (initial CR\<lparr>history_index := 0, line := ''cd /tmp'', cursor_pos := 7\<rparr>) key_up)
        = Some ''cd /tmp''
   \<and> pending_cursor (readline_loop [''cd /tmp'', ''ls -a''] None
        (initial CR\<lparr>history_index := 0, line := ''cd /tmp'', cursor_pos := 7\<rparr>) key_up) = Some 7
   \<and> history_index (initial CR) = - 1
   \<and> pending (readline_loop [''cd /tmp'', ''ls -a''] None (initial CR)
        (key_down @ key_down @ key_down)) = Some (initial (CHR 0x50))"
  using up_clamps_at_oldest_and_down_stays_idle [of "[''cd /tmp'', ''ls -a'']"
      "initial CR\<lparr>history_index := 0, line := ''cd /tmp'', cursor_pos := 7\<rparr>" None 2]
    up_clamps_at_oldest_and_down_stays_idle [of "[''cd /tmp'', ''ls -a'']" "initial CR" None 2]
  by (simp add: initial_def numeral_2_eq_2)

text \<open>
  Claim C7 as stated fails after an edit: with the history \<open>a\<close>, Up recalls \<open>a\<close> at index
  0, typing \<open>x\<close> gives \<open>ax\<close> with the cursor at 2, and a further Up at index 0 sets the
  buffer back to \<open>a\<close> and the cursor to 1.
\<close>

theorem up_at_oldest_discards_edits:
  "pending_index (readline [''a''] None CR (key_up @ ''x'')) = Some 0
   \<and> pending_line (readline [''a''] None CR (key_up @ ''x'')) = Some ''ax''
   \<and> pending_cursor (readline [''a''] None CR (key_up @ ''x'')) = Some 2
   \<and> pending_index (readline [''a''] None CR (key_up @ ''x'' @ key_up)) = Some 0
   \<and> pending_line (readline [''a''] None CR (key_up @ ''x'' @ key_up)) = Some ''a''
   \<and> pending_cursor (readline [''a''] None CR (key_up @ ''x'' @ key_up)) = Some 1"
  by code_simp

section \<open>The history store\<close>

lemma load_lines_filter: "load_lines history ls = history @ filter (\<lambda>l. l \<noteq> []) ls"
  by (induction ls arbitrary: history) simp_all

lemma get_history_filter:
  "get_history file = filter (\<lambda>l. l \<noteq> []) (case file of None \<Rightarrow> [] | Some ls \<Rightarrow> ls)"
  by (simp add: get_history_def load_lines_filter split: option.split)

lemma find_first_not_of_Some:
  "find_first_not_of input = Some n \<Longrightarrow> \<exists>c cs. drop n input = c # cs \<and> \<not> blank c"
proof (induction input arbitrary: n)
  case Nil
  then show ?case by simp
next
  case (Cons x xs)
  then show ?case by (cases "blank x") auto
qed

lemma find_last_not_of_None: "find_last_not_of cs = None \<longleftrightarrow> (\<forall>c\<in>set cs. blank c)"
  by (induction cs) (auto split: option.splits)

lemma trim_head: "trim raw \<noteq> [] \<Longrightarrow> \<not> blank (hd (trim raw))"
proof -
  assume ne: "trim raw \<noteq> []"
  then obtain n where n: "find_first_not_of raw = Some n"
    by (cases "find_first_not_of raw") (auto simp: trim_def)
  from find_first_not_of_Some [OF n] obtain c cs where
    d: "drop n raw = c # cs" "\<not> blank c" by blast
  have "find_last_not_of (c # cs) \<noteq> None"
    using d(2) find_last_not_of_None [of "c # cs"] by auto
  then obtain i where i: "find_last_not_of (c # cs) = Some i" by blast
  have "trim raw = take (i + 1) (c # cs)"
    unfolding trim_def n by (simp only: option.case Let_def d i)
  then show ?thesis using d(2) by simp
qed

lemma find_char_Some_0: "find_char l c = Some 0 \<Longrightarrow> l \<noteq> [] \<and> hd l = c"
  by (cases l) (auto split: if_splits)

lemma command_nonempty:
  assumes "trim raw \<noteq> []"
  shows "(case find_char (trim raw) SP of None \<Rightarrow> trim raw | Some n \<Rightarrow> substr0 (trim raw) n) \<noteq> []"
proof (cases "find_char (trim raw) SP")
  case None
  with assms show ?thesis by simp
next
  case (Some n)
  have "n \<noteq> 0"
  proof
    assume "n = 0"
    with Some find_char_Some_0 [of "trim raw" SP] have "hd (trim raw) = SP" by simp
    with trim_head [OF assms] show False by (simp add: blank_def)
  qed
  with Some assms show ?thesis by (simp add: substr0_def)
qed

lemma main_loop_step:
  "main_loop returns history (raw # raws) =
     (if trim raw = [] then main_loop returns history raws
      else if trim raw = ''exit 0'' \<or> \<not> returns (trim raw) then history @ [trim raw]
      else main_loop returns (history @ [trim raw]) raws)"
  using command_nonempty [of raw] by (simp add: Let_def)

lemma blank_eq: "blank = (\<lambda>c. c = SP \<or> c = TAB)"
  by (rule ext) (simp add: blank_def)

lemma erase_front:
  "(case find_first_not_of input of None \<Rightarrow> [] | Some n \<Rightarrow> drop n input)
     = dropWhile blank input"
  by (induction input) (auto split: option.splits)

lemma erase_back:
  "(case find_last_not_of xs of None \<Rightarrow> take 0 xs | Some i \<Rightarrow> take (i + 1) xs)
     = rev (dropWhile blank (rev xs))"
proof (induction xs)
  case Nil
  then show ?case by simp
next
  case (Cons c cs)
  show ?case
  proof (cases "find_last_not_of cs")
    case None
    then have all: "\<forall>x\<in>set cs. blank x" by (simp add: find_last_not_of_None)
    then have "dropWhile blank (rev cs @ [c]) = dropWhile blank [c]"
      by (intro dropWhile_append2) simp
    with None show ?thesis by simp
  next
    case (Some i)
    then have "\<not> (\<forall>x\<in>set cs. blank x)"
      using find_last_not_of_None [of cs] by simp
    then obtain x where "x \<in> set (rev cs)" "\<not> blank x" by auto
    then have "dropWhile blank (rev cs @ [c]) = dropWhile blank (rev cs) @ [c]"
      by (rule dropWhile_append1)
    with Some Cons.IH show ?thesis by simp
  qed
qed

lemma trim_stripped: "trim raw = stripped raw"
  unfolding trim_def Let_def erase_front erase_back blank_eq ..

lemma main_loop_continues:
  "\<forall>raw\<in>set raws. trim raw = [] \<or> (trim raw \<noteq> ''exit 0'' \<and> returns (trim raw)) \<Longrightarrow>
   main_loop returns history (raws @ rest)
     = main_loop returns (history @ filter (\<lambda>l. l \<noteq> []) (map trim raws)) rest"
proof (induction raws arbitrary: history)
  case Nil
  then show ?case by simp
next
  case (Cons raw raws)
  then show ?case by (simp only: append_Cons main_loop_step) auto
qed

lemma main_loop_stops:
  "trim raw \<noteq> [] \<Longrightarrow> trim raw = ''exit 0'' \<or> \<not> returns (trim raw) \<Longrightarrow>
   main_loop returns history (raw # rest) = history @ [trim raw]"
  by (simp only: main_loop_step) auto

text \<open>
  Claim C9, as amended. The vector \<open>history\<close> is the sequence \<open>get_history\<close> loaded (the
  non-empty lines of the history file, none when it cannot be opened) followed, in
  submission order, by the lines \<open>readline\<close> returned with their leading and trailing
  spaces and tabs removed, those that are empty after the removal left out: one entry is
  appended at the end for each such line the loop processes, none for the others, with
  no deduplication and no reordering. The loop processes every line up to and including
  the first whose stripped text is \<open>exit 0\<close> or whose command body does not return, and
  that line is appended too. When no submitted line begins or ends with a space or tab
  and the loop processes them all, the store is the one the specification describes.
\<close>

theorem history_store_is_loaded_then_trimmed_lines:
  "((\<forall>raw\<in>set raws. stripped raw = []
         \<or> (stripped raw \<noteq> ''exit 0'' \<and> returns (stripped raw))) \<longrightarrow>
      main returns file raws
        = get_history file @ filter (\<lambda>l. l \<noteq> []) (map stripped raws))
   \<and> ((\<forall>raw\<in>set raws. stripped raw = []
         \<or> (stripped raw \<noteq> ''exit 0'' \<and> returns (stripped raw)))
       \<and> stripped final \<noteq> []
       \<and> (stripped final = ''exit 0'' \<or> \<not> returns (stripped final)) \<longrightarrow>
      main returns file (raws @ final # rest)
        = get_history file @ filter (\<lambda>l. l \<noteq> []) (map stripped raws) @ [stripped final])
   \<and> ((\<forall>raw\<in>set raws. stripped raw = raw \<and> raw \<noteq> ''exit 0'' \<and> returns raw) \<longrightarrow>
      main returns file raws = spec_history_store (get_history file) raws)
   \<and> get_history None = []
   \<and> get_history (Some ls) = filter (\<lambda>l. l \<noteq> []) ls"
proof -
  have trim_fun: "trim = (\<lambda>raw. stripped raw)"
    by (rule ext) (rule trim_stripped)
  have a: "main returns file raws
        = get_history file @ filter (\<lambda>l. l \<noteq> []) (map stripped raws)"
    if "\<forall>raw\<in>set raws. stripped raw = []
         \<or> (stripped raw \<noteq> ''exit 0'' \<and> returns (stripped raw))"
    using main_loop_continues [of raws returns "get_history file" "[]"] that
    unfolding trim_fun main_def by simp
  have b: "main returns file (raws @ final # rest)
        = get_history file @ filter (\<lambda>l. l \<noteq> []) (map stripped raws) @ [stripped final]"
    if "\<forall>raw\<in>set raws. stripped raw = []
         \<or> (stripped raw \<noteq> ''exit 0'' \<and> returns (stripped raw))"
      "stripped final \<noteq> []" "stripped final = ''exit 0'' \<or> \<not> returns (stripped final)"
    using main_loop_continues [of raws returns "get_history file" "final # rest"]
      main_loop_stops [of final returns
        "get_history file @ filter (\<lambda>l. l \<noteq> []) (map stripped raws)" rest] that
    unfolding trim_fun main_def by simp
  have c: "main returns file raws = spec_history_store (get_history file) raws"
    if h: "\<forall>raw\<in>set raws. stripped raw = raw \<and> raw \<noteq> ''exit 0'' \<and> returns raw"
  proof -
    from h have "map (\<lambda>raw. stripped raw) raws = raws" by (simp add: map_idI)
    moreover from h have "\<forall>raw\<in>set raws. stripped raw = []
         \<or> (stripped raw \<noteq> ''exit 0'' \<and> returns (stripped raw))" by simp
    ultimately show ?thesis using a by (simp add: spec_history_store_def)
  qed
  have d: "get_history None = []" "get_history (Some ls) = filter (\<lambda>l. l \<noteq> []) ls"
    by (simp_all add: get_history_filter)
  from a b c d show ?thesis by blast
qed

theorem history_store_is_loaded_then_trimmed_lines_witness:
  "stripped [TAB, SP, CHR ''l'', CHR ''s'', SP, CHR ''-'', CHR ''a'', SP, TAB] = ''ls -a''
   \<and> stripped [SP, TAB, SP] = []
   \<and> stripped ''cd /tmp'' = ''cd /tmp''
   \<and> always_returns ''ls -a'' \<and> always_returns ''cd /tmp''
   \<and> main always_returns (Some [''pwd'', [], ''ls''])
        [[TAB, SP, CHR ''l'', CHR ''s'', SP, CHR ''-'', CHR ''a'', SP, TAB], [SP, TAB, SP], [],
         ''cd /tmp'']
       = [''pwd'', ''ls'', ''ls -a'', ''cd /tmp'']
   \<and> stripped '' exit 0 '' = ''exit 0''
   \<and> main always_returns (Some [''pwd'', [], ''ls''])
        [[TAB, SP, CHR ''l'', CHR ''s'', SP, CHR ''-'', CHR ''a'', SP, TAB], [SP, TAB, SP],
         '' exit 0 '', ''cd /tmp'']
       = [''pwd'', ''ls'', ''ls -a'', ''exit 0'']
   \<and> stripped ''type'' = ''type'' \<and> \<not> returns_ls_only ''type'' \<and> returns_ls_only ''ls -a''
   \<and> main returns_ls_only None
        [[TAB, SP, CHR ''l'', CHR ''s'', SP, CHR ''-'', CHR ''a'', SP, TAB], ''type'', ''cd /tmp'']
       = [''ls -a'', ''type'']
   \<and> main always_returns (Some [''pwd'', [], ''ls'']) [''cd /tmp'']
       = spec_history_store (get_history (Some [''pwd'', [], ''ls''])) [''cd /tmp'']
   \<and> get_history (Some [''pwd'', [], ''ls'']) = [''pwd'', ''ls'']"
  using history_store_is_loaded_then_trimmed_lines
      [of "[[TAB, SP, CHR ''l'', CHR ''s'', SP, CHR ''-'', CHR ''a'', SP, TAB], [SP, TAB, SP], [],
            ''cd /tmp'']" always_returns "Some [''pwd'', [], ''ls'']" "[]" "[]" "[''pwd'', [], ''ls'']"]
    history_store_is_loaded_then_trimmed_lines
      [of "[[TAB, SP, CHR ''l'', CHR ''s'', SP, CHR ''-'', CHR ''a'', SP, TAB], [SP, TAB, SP]]"
          always_returns "Some [''pwd'', [], ''ls'']" "'' exit 0 ''" "[''cd /tmp'']" "[]"]
    history_store_is_loaded_then_trimmed_lines
      [of "[[TAB, SP, CHR ''l'', CHR ''s'', SP, CHR ''-'', CHR ''a'', SP, TAB]]"
          returns_ls_only None "''type''" "[''cd /tmp'']" "[]"]
    history_store_is_loaded_then_trimmed_lines
      [of "[''cd /tmp'']" always_returns "Some [''pwd'', [], ''ls'']" "[]" "[]" "[]"]
  by (simp add: always_returns_def returns_ls_only_def spec_history_store_def)

text \<open>
  Claim C9 as stated fails for lines with surrounding blanks: submitting \<open>  ls\<close> appends
  \<open>ls\<close>, and submitting three spaces, a non-empty line, appends nothing.
\<close>

theorem history_store_holds_trimmed_lines_only:
  "main always_returns None [''  ls'', ''   ''] = [''ls'']
   \<and> spec_history_store (get_history None) [''  ls'', ''   ''] = [''  ls'', ''   '']"
  by code_simp

end
